theory Spec2Isabelle
  imports Main "HOL-Library.Word"
begin

unbundle bit_operations_syntax

section \<open>Data model of \<open>software/source.c\<close>\<close>

text \<open>
  The program drives a memory-mapped 4x4 matrix multiplier. Its integers are fixed-width
  unsigned values (\<open>uint8_t\<close>, \<open>uint16_t\<close>/\<open>alt_u16\<close>, \<open>alt_u32\<close>, \<open>uint64_t\<close>),
  modelled as words; \<open>alt_u16\<close> and \<open>alt_u32\<close> are the 16-bit and 32-bit unsigned types
  of the Altera header \<open>alt_types.h\<close>, as lines 12 and 180 of the source say. \<open>int\<close>
  loop counters of \<open>main\<close> stay between 0 and 4 and are modelled as \<open>int\<close>.
\<close>

type_synonym u8 = "8 word"
type_synonym u16 = "16 word"
type_synonym u32 = "32 word"
type_synonym u64 = "64 word"

text \<open>The \<open>#define\<close>s of lines 16-44.\<close>

definition DATA_WIDTH :: nat where "DATA_WIDTH = 16"
definition M :: int where "M = 4"
definition K :: int where "K = 4"
definition N :: int where "N = 4"
definition N_BANKS :: nat where "N_BANKS = 4"
definition MATRIX_DIM :: u8 where "MATRIX_DIM = 4"
definition ELEMENT_INDEX_BITS :: nat where "ELEMENT_INDEX_BITS = 2"
definition ADDR_BITS :: nat where "ADDR_BITS = 4"

definition ADDR_CONTROL_OFFSET :: nat where "ADDR_CONTROL_OFFSET = 0x00"
definition ADDR_STATUS_OFFSET :: nat where "ADDR_STATUS_OFFSET = 0x08"
definition ADDR_C_ADDR_OFFSET :: nat where "ADDR_C_ADDR_OFFSET = 0x10"
definition ADDR_C_DATA_OFFSET :: nat where "ADDR_C_DATA_OFFSET = 0x18"
definition ADDR_A_ADDR_OFFSET :: nat where "ADDR_A_ADDR_OFFSET = 0x20"
definition ADDR_A_DATA_OFFSET :: nat where "ADDR_A_DATA_OFFSET = 0x28"
definition ADDR_B_ADDR_OFFSET :: nat where "ADDR_B_ADDR_OFFSET = 0x30"
definition ADDR_B_DATA_OFFSET :: nat where "ADDR_B_DATA_OFFSET = 0x38"

text \<open>
  A matrix is a C array \<open>uint16_t [4][4]\<close>: a list of rows, each a list of elements.
  \<open>wf_matrix\<close> says that it has the four rows and four columns of the array type; the
  loaders only index it below 4.
\<close>

type_synonym matrix = "u16 list list"

definition wf_matrix :: "matrix \<Rightarrow> bool" where
  "wf_matrix m = (length m = 4 \<and> list_all (\<lambda>r. length r = 4) m)"

definition matrix_A :: matrix where
  "matrix_A = [[ 1,  2,  3,  4],
               [ 5,  6,  7,  8],
               [ 9, 10, 11, 12],
               [13, 14, 15, 16]]"

definition matrix_B :: matrix where
  "matrix_B = [[16, 15, 14, 13],
               [12, 11, 10,  9],
               [ 8,  7,  6,  5],
               [ 4,  3,  2,  1]]"

section \<open>The outside world: device registers and the console\<close>

text \<open>
  Every access through a \<open>volatile\<close> pointer and every call of \<open>printf\<close> is an event.
  A register event records the address, the width of the access (that of the pointer's
  target type) and the value moved; a \<open>printf\<close> event records the format string and the
  arguments.
\<close>

datatype event =
    Write64 nat u64
  | Read64 nat u64
  | Write32 nat u32
  | Read32 nat u32
  | Printf string "int list"

text \<open>
  The device is whatever answers the accesses: a state of type \<open>'d\<close> and one transition
  for each kind of access. The program is written against this interface.
\<close>

record 'd device =
  dev_write64 :: "nat \<Rightarrow> u64 \<Rightarrow> 'd \<Rightarrow> 'd"
  dev_read64 :: "nat \<Rightarrow> 'd \<Rightarrow> u64 \<times> 'd"
  dev_write32 :: "nat \<Rightarrow> u32 \<Rightarrow> 'd \<Rightarrow> 'd"
  dev_read32 :: "nat \<Rightarrow> 'd \<Rightarrow> u32 \<times> 'd"

record 'd world =
  dev :: 'd
  trace :: "event list"

definition store64 :: "'d device \<Rightarrow> nat \<Rightarrow> u64 \<Rightarrow> 'd world \<Rightarrow> 'd world" where
  "store64 D p v w = \<lparr>dev = dev_write64 D p v (dev w), trace = trace w @ [Write64 p v]\<rparr>"

definition load64 :: "'d device \<Rightarrow> nat \<Rightarrow> 'd world \<Rightarrow> u64 \<times> 'd world" where
  "load64 D p w =
     (case dev_read64 D p (dev w) of
        (v, d') \<Rightarrow> (v, \<lparr>dev = d', trace = trace w @ [Read64 p v]\<rparr>))"

definition store32 :: "'d device \<Rightarrow> nat \<Rightarrow> u32 \<Rightarrow> 'd world \<Rightarrow> 'd world" where
  "store32 D p v w = \<lparr>dev = dev_write32 D p v (dev w), trace = trace w @ [Write32 p v]\<rparr>"

definition load32 :: "'d device \<Rightarrow> nat \<Rightarrow> 'd world \<Rightarrow> u32 \<times> 'd world" where
  "load32 D p w =
     (case dev_read32 D p (dev w) of
        (v, d') \<Rightarrow> (v, \<lparr>dev = d', trace = trace w @ [Read32 p v]\<rparr>))"

definition printf :: "string \<Rightarrow> int list \<Rightarrow> 'd world \<Rightarrow> 'd world" where
  "printf fmt args w = \<lparr>dev = dev w, trace = trace w @ [Printf fmt args]\<rparr>"

text \<open>
  \<open>PRIu64\<close> comes from the C library's \<open>inttypes.h\<close>: the conversion specifier of a
  \<open>uint64_t\<close>, spliced into two format strings.
\<close>

definition PRIu64 :: string where "PRIu64 = ''llu''"

section \<open>The address composer (lines 62-72)\<close>

text \<open>
  \<open>bank_idx << ELEMENT_INDEX_BITS\<close> is computed on \<open>int\<close> after integer promotion; a
  \<open>uint8_t\<close> shifted by two bits is at most 1020, so nothing is lost, and the conversion
  to \<open>uint64_t\<close> is that of a non-negative value.
\<close>

definition compose_bram_address :: "u8 \<Rightarrow> u8 \<Rightarrow> u64" where
  "compose_bram_address bank_idx element_idx =
     (let address = 0;
          address = address OR ucast element_idx;
          address = address OR ucast (push_bit ELEMENT_INDEX_BITS (ucast bank_idx :: u32))
      in address)"

section \<open>The column loader of matrix A (lines 75-104)\<close>

text \<open>
  The parameter \<open>matrix_A\<close> of both loaders hides the global of that name; it is called
  \<open>mat\<close> here. The loop over \<open>row_idx\<close> is a recursive function on the two buffers.
\<close>

function load_matrix_A_column_loop :: "matrix \<Rightarrow> u8 \<Rightarrow> u8 \<Rightarrow> u64 \<times> u64 \<Rightarrow> u64 \<times> u64" where
  "load_matrix_A_column_loop mat col_idx row_idx (addr_buffer, data_buffer) =
     (if row_idx < MATRIX_DIM then
        (let data = (ucast (mat ! unat row_idx ! unat col_idx) :: u64);
             bram_address_to_write = compose_bram_address row_idx col_idx;
             addr_buffer = addr_buffer OR push_bit (unat row_idx * ADDR_BITS) bram_address_to_write;
             data_buffer = data_buffer OR push_bit (unat row_idx * 16) data
         in load_matrix_A_column_loop mat col_idx (row_idx + 1) (addr_buffer, data_buffer))
      else (addr_buffer, data_buffer))"
  by pat_completeness auto
termination
proof (relation "measure (\<lambda>(m, c, r, b). 4 - unat r)")
  show "wf (measure (\<lambda>(m, c, r, b). 4 - unat r))" by simp
next
  fix mat :: matrix and col_idx row_idx :: u8 and addr_buffer data_buffer x xa xb xc :: u64
  assume "row_idx < MATRIX_DIM"
  then have "unat row_idx < 4"
    by (simp add: MATRIX_DIM_def word_less_nat_alt)
  then have "unat (row_idx + 1) = unat row_idx + 1"
    by (simp add: unat_word_ariths)
  with \<open>unat row_idx < 4\<close>
  show "((mat, col_idx, row_idx + 1, xb, xc), mat, col_idx, row_idx, addr_buffer, data_buffer)
          \<in> measure (\<lambda>(m, c, r, b). 4 - unat r)"
    by simp
qed

declare load_matrix_A_column_loop.simps [simp del]

definition load_matrix_A_column ::
  "'d device \<Rightarrow> nat \<Rightarrow> nat \<Rightarrow> matrix \<Rightarrow> u8 \<Rightarrow> 'd world \<Rightarrow> 'd world" where
  "load_matrix_A_column D addr data mat col_idx w =
     (if col_idx \<ge> MATRIX_DIM then
        printf ''Error: Column index %u out of bounds for Matrix A.\<newline>'' [uint col_idx] w
      else
        (let w = printf ''Loading column %u of Matrix A into BRAM...\<newline>'' [uint col_idx] w;
             (addr_buffer, data_buffer) = load_matrix_A_column_loop mat col_idx 0 (0, 0);
             w = store64 D addr addr_buffer w;
             w = store64 D data data_buffer w;
             (v, w) = load64 D addr w;
             w = printf ('' Bram address : %'' @ PRIu64 @ ''\<newline>'') [uint v] w;
             (v, w) = load64 D data w;
             w = printf ('' Bram data : %'' @ PRIu64 @ ''\<newline>'') [uint v] w;
             w = printf ''Finish loading col %u of Matrix A into BRAM...\<newline>'' [uint col_idx] w;
             w = printf ''------------------------------------------------------------- \<newline>'' [] w
         in w))"

section \<open>The row loader of matrix B (lines 109-140)\<close>

function load_matrix_B_row_loop :: "matrix \<Rightarrow> u8 \<Rightarrow> u8 \<Rightarrow> u64 \<times> u64 \<Rightarrow> u64 \<times> u64" where
  "load_matrix_B_row_loop mat row_idx col_idx (addr_buffer, data_buffer) =
     (if col_idx < MATRIX_DIM then
        (let data = (ucast (mat ! unat row_idx ! unat col_idx) :: u64);
             bram_address_to_write = compose_bram_address col_idx row_idx;
             addr_buffer = addr_buffer OR push_bit (unat col_idx * ADDR_BITS) bram_address_to_write;
             data_buffer = data_buffer OR push_bit (unat col_idx * 16) data
         in load_matrix_B_row_loop mat row_idx (col_idx + 1) (addr_buffer, data_buffer))
      else (addr_buffer, data_buffer))"
  by pat_completeness auto
termination
proof (relation "measure (\<lambda>(m, r, c, b). 4 - unat c)")
  show "wf (measure (\<lambda>(m, r, c, b). 4 - unat c))" by simp
next
  fix mat :: matrix and col_idx row_idx :: u8 and addr_buffer data_buffer x xa xb xc :: u64
  assume "col_idx < MATRIX_DIM"
  then have "unat col_idx < 4"
    by (simp add: MATRIX_DIM_def word_less_nat_alt)
  then have "unat (col_idx + 1) = unat col_idx + 1"
    by (simp add: unat_word_ariths)
  with \<open>unat col_idx < 4\<close>
  show "((mat, row_idx, col_idx + 1, xb, xc), mat, row_idx, col_idx, addr_buffer, data_buffer)
          \<in> measure (\<lambda>(m, r, c, b). 4 - unat c)"
    by simp
qed

declare load_matrix_B_row_loop.simps [simp del]

definition load_matrix_B_row ::
  "'d device \<Rightarrow> nat \<Rightarrow> nat \<Rightarrow> matrix \<Rightarrow> u8 \<Rightarrow> 'd world \<Rightarrow> 'd world" where
  "load_matrix_B_row D addr data mat row_idx w =
     (if row_idx \<ge> MATRIX_DIM then
        printf ''Error: Column index %u out of bounds for Matrix A.\<newline>'' [uint row_idx] w
      else
        (let w = printf ''Loading row %u of Matrix B into BRAM...\<newline>'' [uint row_idx] w;
             (addr_buffer, data_buffer) = load_matrix_B_row_loop mat row_idx 0 (0, 0);
             w = store64 D addr addr_buffer w;
             w = store64 D data data_buffer w;
             (v, w) = load64 D addr w;
             w = printf ('' Bram address : %'' @ PRIu64 @ ''\<newline>'') [uint v] w;
             (v, w) = load64 D data w;
             w = printf ('' Bram data : %'' @ PRIu64 @ ''\<newline>'') [uint v] w;
             w = printf '' Finish loading row %u of Matrix B into BRAM...\<newline>'' [uint row_idx] w;
             w = printf ''------------------------------------------------------------- \<newline>'' [] w
         in w))"

section \<open>The controller (\<open>main\<close>, lines 142-200)\<close>

text \<open>
  \<open>MM_BASE\<close> is \<open>MM_IP_0_BASE\<close> of the generated \<open>system.h\<close>; it is a parameter of
  \<open>main\<close>. The four loops of \<open>main\<close> are the functions below.
\<close>

function main_load_A :: "'d device \<Rightarrow> nat \<Rightarrow> nat \<Rightarrow> int \<Rightarrow> 'd world \<Rightarrow> 'd world" where
  "main_load_A D addr_reg_ptr_A data_reg_ptr_A col w =
     (if col < K then
        main_load_A D addr_reg_ptr_A data_reg_ptr_A (col + 1)
          (load_matrix_A_column D addr_reg_ptr_A data_reg_ptr_A matrix_A (word_of_int col) w)
      else w)"
  by pat_completeness auto
termination
  by (relation "measure (\<lambda>(D, a, d, col, w). nat (4 - col))") (auto simp: K_def)

declare main_load_A.simps [simp del]

function main_load_B :: "'d device \<Rightarrow> nat \<Rightarrow> nat \<Rightarrow> int \<Rightarrow> 'd world \<Rightarrow> 'd world" where
  "main_load_B D addr_reg_ptr_B data_reg_ptr_B row w =
     (if row < K then
        main_load_B D addr_reg_ptr_B data_reg_ptr_B (row + 1)
          (load_matrix_B_row D addr_reg_ptr_B data_reg_ptr_B matrix_B (word_of_int row) w)
      else w)"
  by pat_completeness auto
termination
  by (relation "measure (\<lambda>(D, a, d, row, w). nat (4 - row))") (auto simp: K_def)

declare main_load_B.simps [simp del]

text \<open>
  The \<open>do ... while (!(status_reg & 0x1))\<close> loop has no bound: where the device never
  sets bit 0 it does not return, which is the value \<open>None\<close>.
\<close>

partial_function (option) main_poll :: "'d device \<Rightarrow> nat \<Rightarrow> 'd world \<Rightarrow> (u32 \<times> 'd world) option" where
  "main_poll D status_reg_ptr w =
     (case load32 D status_reg_ptr w of
        (status_reg, w') \<Rightarrow>
          if \<not> (status_reg AND 0x1 \<noteq> 0) then main_poll D status_reg_ptr w'
          else Some (status_reg, w'))"

function main_read_cols :: "'d device \<Rightarrow> nat \<Rightarrow> nat \<Rightarrow> int \<Rightarrow> int \<Rightarrow> 'd world \<Rightarrow> 'd world" where
  "main_read_cols D c_addr_reg_ptr c_data_reg_ptr row col w =
     (if col < N then
        (let c_bram_addr = (word_of_int (row * N + col) :: u32);
             w = store32 D c_addr_reg_ptr c_bram_addr w;
             (result_val, w) = load32 D c_data_reg_ptr w;
             w = printf ''C[%d][%d] = %u (0x%X)\<newline>'' [row, col, uint result_val, uint result_val] w
         in main_read_cols D c_addr_reg_ptr c_data_reg_ptr row (col + 1) w)
      else w)"
  by pat_completeness auto
termination
  by (relation "measure (\<lambda>(D, a, d, row, col, w). nat (4 - col))") (auto simp: N_def)

declare main_read_cols.simps [simp del]

function main_read_rows :: "'d device \<Rightarrow> nat \<Rightarrow> nat \<Rightarrow> int \<Rightarrow> 'd world \<Rightarrow> 'd world" where
  "main_read_rows D c_addr_reg_ptr c_data_reg_ptr row w =
     (if row < M then
        main_read_rows D c_addr_reg_ptr c_data_reg_ptr (row + 1)
          (main_read_cols D c_addr_reg_ptr c_data_reg_ptr row 0 w)
      else w)"
  by pat_completeness auto
termination
  by (relation "measure (\<lambda>(D, a, d, row, w). nat (4 - row))") (auto simp: M_def)

declare main_read_rows.simps [simp del]

text \<open>The part of \<open>main\<close> before the polling loop: lines 143-169.\<close>

definition main_start :: "nat \<Rightarrow> 'd device \<Rightarrow> 'd world \<Rightarrow> 'd world" where
  "main_start MM_BASE D w =
     (let addr_reg_ptr_A = MM_BASE + ADDR_A_ADDR_OFFSET;
          data_reg_ptr_A = MM_BASE + ADDR_A_DATA_OFFSET;
          addr_reg_ptr_B = MM_BASE + ADDR_B_ADDR_OFFSET;
          data_reg_ptr_B = MM_BASE + ADDR_B_DATA_OFFSET;
          w = printf ''Nios II 4x4 Matrix Multiplier Control Software Starting...\<newline>'' [] w;
          w = printf ''------------------------------------------------------------- \<newline>'' [] w;
          w = printf ''Loading matrix A...\<newline>'' [] w;
          w = main_load_A D addr_reg_ptr_A data_reg_ptr_A 0 w;
          w = printf ''--------------------------------------------------------------\<newline>'' [] w;
          w = printf ''Loading matrix B...\<newline>'' [] w;
          w = main_load_B D addr_reg_ptr_B data_reg_ptr_B 0 w;
          control_reg_ptr = MM_BASE + ADDR_CONTROL_OFFSET;
          w = printf ''\<newline>Starting multiplication...\<newline>'' [] w;
          w = store32 D control_reg_ptr 0x3 w;
          w = printf ''Waiting for multiplication to finish...\<newline>'' [] w
      in w)"

text \<open>The part of \<open>main\<close> after the polling loop: lines 175-199.\<close>

definition main_finish :: "nat \<Rightarrow> 'd device \<Rightarrow> 'd world \<Rightarrow> int \<times> 'd world" where
  "main_finish MM_BASE D w =
     (let w = printf ''Multiplication finished!\<newline>'' [] w;
          w = printf ''\<newline>Reading results from C matrix BRAM...\<newline>'' [] w;
          c_addr_reg_ptr = MM_BASE + ADDR_C_ADDR_OFFSET;
          c_data_reg_ptr = MM_BASE + ADDR_C_DATA_OFFSET;
          w = main_read_rows D c_addr_reg_ptr c_data_reg_ptr 0 w;
          w = printf ''\<newline>Nios II application finished.\<newline>'' [] w
      in (0, w))"

definition main :: "nat \<Rightarrow> 'd device \<Rightarrow> 'd world \<Rightarrow> (int \<times> 'd world) option" where
  "main MM_BASE D w =
     (let w = main_start MM_BASE D w;
          status_reg_ptr = MM_BASE + ADDR_STATUS_OFFSET
      in case main_poll D status_reg_ptr w of
           None \<Rightarrow> None
         | Some (status_reg, w) \<Rightarrow> Some (main_finish MM_BASE D w))"

section \<open>Observing a run\<close>

text \<open>
  What follows is not in the program: the vocabulary in which its runs are described.
  \<open>is_write\<close> picks the register writes of a trace, \<open>ev_addr\<close> is the address an event
  touches (none for console output), \<open>new_events w w'\<close> are the events that a run from
  \<open>w\<close> to \<open>w'\<close> appended.
\<close>

fun is_write :: "event \<Rightarrow> bool" where
  "is_write (Write64 p v) = True"
| "is_write (Write32 p v) = True"
| "is_write e = False"

fun ev_addr :: "event \<Rightarrow> nat option" where
  "ev_addr (Write64 p v) = Some p"
| "ev_addr (Read64 p v) = Some p"
| "ev_addr (Write32 p v) = Some p"
| "ev_addr (Read32 p v) = Some p"
| "ev_addr (Printf fmt args) = None"

definition new_events :: "'d world \<Rightarrow> 'd world \<Rightarrow> event list" where
  "new_events w w' = drop (length (trace w)) (trace w')"

text \<open>
  A device for running the program on: its state counts the 32-bit reads that still
  answer 0 before every further one answers 1 (bit 0, done); writes are ignored and
  64-bit reads answer 0.
\<close>

definition test_device :: "nat device" where
  "test_device =
     \<lparr>dev_write64 = (\<lambda>p v d. d), dev_read64 = (\<lambda>p d. (0, d)),
      dev_write32 = (\<lambda>p v d. d),
      dev_read32 = (\<lambda>p d. if d = 0 then (1, 0) else (0, d - 1))\<rparr>"

definition test_world :: "nat \<Rightarrow> nat world" where
  "test_world d = \<lparr>dev = d, trace = []\<rparr>"

text \<open>
  The status register seen by the polling loop: \<open>poll_dev D p d n\<close> is the device state
  after \<open>n\<close> reads of address \<open>p\<close> from state \<open>d\<close>, and \<open>poll_status D p d n\<close> the value
  that the next read returns.
\<close>

primrec poll_dev :: "'d device \<Rightarrow> nat \<Rightarrow> 'd \<Rightarrow> nat \<Rightarrow> 'd" where
  "poll_dev D p d 0 = d"
| "poll_dev D p d (Suc n) = poll_dev D p (snd (dev_read32 D p d)) n"

definition poll_status :: "'d device \<Rightarrow> nat \<Rightarrow> 'd \<Rightarrow> nat \<Rightarrow> u32" where
  "poll_status D p d n = fst (dev_read32 D p (poll_dev D p d n))"

text \<open>
  \<open>is_access\<close> picks the register accesses of a trace, \<open>accesses_at p\<close> those at address
  \<open>p\<close>. \<open>A_column_writes\<close> and \<open>B_row_writes\<close> are the write pair of one column of A and
  of one row of B: the address word to \<open>addr\<close>, then the data word to \<open>data\<close>, with the
  words that the loader's loop computes.
\<close>

fun is_access :: "event \<Rightarrow> bool" where
  "is_access (Printf fmt args) = False"
| "is_access e = True"

definition accesses_at :: "nat \<Rightarrow> event list \<Rightarrow> event list" where
  "accesses_at p es = filter (\<lambda>e. ev_addr e = Some p) es"

definition A_column_writes :: "nat \<Rightarrow> nat \<Rightarrow> matrix \<Rightarrow> u8 \<Rightarrow> event list" where
  "A_column_writes addr data mat col_idx =
     [Write64 addr (fst (load_matrix_A_column_loop mat col_idx 0 (0, 0))),
      Write64 data (snd (load_matrix_A_column_loop mat col_idx 0 (0, 0)))]"

definition B_row_writes :: "nat \<Rightarrow> nat \<Rightarrow> matrix \<Rightarrow> u8 \<Rightarrow> event list" where
  "B_row_writes addr data mat row_idx =
     [Write64 addr (fst (load_matrix_B_row_loop mat row_idx 0 (0, 0))),
      Write64 data (snd (load_matrix_B_row_loop mat row_idx 0 (0, 0)))]"

text \<open>
  The read-out of the results in the words of the specification, section 4.2: for each
  linear output position of the list in turn, write the linear index to the C-address
  register, then read the C-data register once. Position \<open>i\<close> is row \<open>i div 4\<close>, column
  \<open>i mod 4\<close>. It acts on the device and returns the events with the device state
  reached; the loops of \<open>main\<close> are compared with it below.
\<close>

fun result_sweep :: "'d device \<Rightarrow> nat \<Rightarrow> nat \<Rightarrow> nat list \<Rightarrow> 'd \<Rightarrow> event list \<times> 'd" where
  "result_sweep D c_addr c_data [] d = ([], d)"
| "result_sweep D c_addr c_data (i # is) d =
     (let d = dev_write32 D c_addr (of_nat i) d;
          (v, d) = dev_read32 D c_data d;
          (es, d) = result_sweep D c_addr c_data is d
      in (Write32 c_addr (of_nat i) # Read32 c_data v #
            Printf ''C[%d][%d] = %u (0x%X)\<newline>'' [int (i div 4), int (i mod 4), uint v, uint v] # es,
          d))"

section \<open>Facts about the packer\<close>

lemma u8_less_4_cases:
  fixes x :: u8
  assumes "x < 4"
  shows "x = 0 \<or> x = 1 \<or> x = 2 \<or> x = 3"
proof -
  from assms have "unat x < 4"
    by (simp add: word_less_nat_alt)
  then have "unat x = 0 \<or> unat x = 1 \<or> unat x = 2 \<or> unat x = 3"
    by arith
  then show ?thesis
    by (simp add: word_unat_eq_iff)
qed

lemma compose_bram_address_eq:
  "compose_bram_address b e = ucast e OR push_bit 2 (ucast b)"
  unfolding compose_bram_address_def ELEMENT_INDEX_BITS_def Let_def
  by (rule bit_word_eqI) (auto simp add: bit_simps dest: bit_imp_le_length)

lemma load_matrix_A_column_loop_unroll:
  "load_matrix_A_column_loop mat c 0 (0, 0) =
     (((compose_bram_address 0 c OR push_bit 4 (compose_bram_address 1 c))
        OR push_bit 8 (compose_bram_address 2 c)) OR push_bit 12 (compose_bram_address 3 c),
      ((ucast (mat ! 0 ! unat c) OR push_bit 16 (ucast (mat ! 1 ! unat c)))
        OR push_bit 32 (ucast (mat ! 2 ! unat c))) OR push_bit 48 (ucast (mat ! 3 ! unat c)))"
  by (simp add: load_matrix_A_column_loop.simps MATRIX_DIM_def ADDR_BITS_def Let_def)

lemma load_matrix_B_row_loop_unroll:
  "load_matrix_B_row_loop mat r 0 (0, 0) =
     (((compose_bram_address 0 r OR push_bit 4 (compose_bram_address 1 r))
        OR push_bit 8 (compose_bram_address 2 r)) OR push_bit 12 (compose_bram_address 3 r),
      ((ucast (mat ! unat r ! 0) OR push_bit 16 (ucast (mat ! unat r ! 1)))
        OR push_bit 32 (ucast (mat ! unat r ! 2))) OR push_bit 48 (ucast (mat ! unat r ! 3)))"
  by (simp add: load_matrix_B_row_loop.simps MATRIX_DIM_def ADDR_BITS_def Let_def)

lemma data_field_0:
  fixes a0 a1 a2 a3 :: u16
  shows "ucast (((ucast a0 OR push_bit 16 (ucast a1)) OR push_bit 32 (ucast a2))
              OR push_bit 48 (ucast a3) :: u64) = a0"
  by (rule bit_word_eqI) (auto simp add: bit_simps dest: bit_imp_le_length)

lemma data_field_1:
  fixes a0 a1 a2 a3 :: u16
  shows "ucast (drop_bit 16 (((ucast a0 OR push_bit 16 (ucast a1)) OR push_bit 32 (ucast a2))
              OR push_bit 48 (ucast a3) :: u64)) = a1"
  by (rule bit_word_eqI) (auto simp add: bit_simps dest: bit_imp_le_length)

lemma data_field_2:
  fixes a0 a1 a2 a3 :: u16
  shows "ucast (drop_bit 32 (((ucast a0 OR push_bit 16 (ucast a1)) OR push_bit 32 (ucast a2))
              OR push_bit 48 (ucast a3) :: u64)) = a2"
  by (rule bit_word_eqI) (auto simp add: bit_simps dest: bit_imp_le_length)

lemma data_field_3:
  fixes a0 a1 a2 a3 :: u16
  shows "ucast (drop_bit 48 (((ucast a0 OR push_bit 16 (ucast a1)) OR push_bit 32 (ucast a2))
              OR push_bit 48 (ucast a3) :: u64)) = a3"
  by (rule bit_word_eqI) (auto simp add: bit_simps dest: bit_imp_le_length)

lemma data_fields:
  fixes a0 a1 a2 a3 :: u16
  assumes "s < 4"
  shows "ucast (drop_bit (s * 16)
           (((ucast a0 OR push_bit 16 (ucast a1)) OR push_bit 32 (ucast a2))
              OR push_bit 48 (ucast a3) :: u64)) = [a0, a1, a2, a3] ! s"
proof -
  from assms have "s = 0 \<or> s = 1 \<or> s = 2 \<or> s = 3" by arith
  then show ?thesis
    using data_field_0 [of a0 a1 a2 a3] data_field_1 [of a0 a1 a2 a3]
      data_field_2 [of a0 a1 a2 a3] data_field_3 [of a0 a1 a2 a3]
    by (elim disjE) simp_all
qed

lemma addr_fields:
  fixes c :: u8
  assumes "s < 4" "c < 4"
  shows "take_bit 4 (drop_bit (s * 4)
           (((compose_bram_address 0 c OR push_bit 4 (compose_bram_address 1 c))
              OR push_bit 8 (compose_bram_address 2 c)) OR push_bit 12 (compose_bram_address 3 c)))
         = compose_bram_address (of_nat s) c"
proof -
  from assms(1) have "s = 0 \<or> s = 1 \<or> s = 2 \<or> s = 3" by arith
  moreover from assms(2) have "c = 0 \<or> c = 1 \<or> c = 2 \<or> c = 3"
    by (rule u8_less_4_cases)
  ultimately show ?thesis
    by (elim disjE) (simp_all add: compose_bram_address_eq)
qed

lemma load_matrix_A_column_events:
  assumes "col_idx < MATRIX_DIM"
  shows "\<exists>es. trace (load_matrix_A_column D addr data mat col_idx w) = trace w @ es \<and>
           filter is_write es =
             [Write64 addr (fst (load_matrix_A_column_loop mat col_idx 0 (0, 0))),
              Write64 data (snd (load_matrix_A_column_loop mat col_idx 0 (0, 0)))] \<and>
           map ev_addr (filter is_access es) = [Some addr, Some data, Some addr, Some data] \<and>
           (\<forall>e \<in> set es. ev_addr e \<in> {None, Some addr, Some data})"
  using assms
  by (simp add: load_matrix_A_column_def Let_def store64_def load64_def printf_def
      split: prod.splits)

lemma load_matrix_B_row_events:
  assumes "row_idx < MATRIX_DIM"
  shows "\<exists>es. trace (load_matrix_B_row D addr data mat row_idx w) = trace w @ es \<and>
           filter is_write es =
             [Write64 addr (fst (load_matrix_B_row_loop mat row_idx 0 (0, 0))),
              Write64 data (snd (load_matrix_B_row_loop mat row_idx 0 (0, 0)))] \<and>
           map ev_addr (filter is_access es) = [Some addr, Some data, Some addr, Some data] \<and>
           (\<forall>e \<in> set es. ev_addr e \<in> {None, Some addr, Some data})"
  using assms
  by (simp add: load_matrix_B_row_def Let_def store64_def load64_def printf_def
      split: prod.splits)

lemma new_events_append: "trace w' = trace w @ es \<Longrightarrow> new_events w w' = es"
  by (simp add: new_events_def)

lemma nth_four:
  "s < 4 \<Longrightarrow> [f 0, f 1, f 2, f 3] ! s = f s"
proof -
  assume "s < 4"
  then have "s = 0 \<or> s = 1 \<or> s = 2 \<or> s = 3" by arith
  then show ?thesis by (elim disjE) simp_all
qed

lemma compose_bram_address_unat:
  assumes "b < 4" "e < 4"
  shows "unat (compose_bram_address b e) = unat e + 4 * unat b"
  using u8_less_4_cases [OF assms(1)] u8_less_4_cases [OF assms(2)]
  by (elim disjE) (simp_all add: compose_bram_address_eq)

section \<open>Facts about the polling loop\<close>

lemma poll_status_Suc: "poll_status D p d (Suc n) = poll_status D p (snd (dev_read32 D p d)) n"
  by (simp add: poll_status_def)

lemma main_poll_exit:
  assumes "\<forall>i<k. poll_status D p (dev w) i AND 1 = 0"
    and "poll_status D p (dev w) k AND 1 \<noteq> 0"
  shows "main_poll D p w =
           Some (poll_status D p (dev w) k,
                 \<lparr>dev = poll_dev D p (dev w) (Suc k),
                  trace = trace w @ map (\<lambda>i. Read32 p (poll_status D p (dev w) i)) [0..<Suc k]\<rparr>)"
  using assms
proof (induction k arbitrary: w)
  case 0
  obtain v d' where rd: "dev_read32 D p (dev w) = (v, d')"
    by (cases "dev_read32 D p (dev w)")
  with 0 have "v AND 1 \<noteq> 0"
    by (simp add: poll_status_def)
  then show ?case
    by (subst main_poll.simps) (simp add: load32_def poll_status_def rd)
next
  case (Suc k)
  obtain v d' where rd: "dev_read32 D p (dev w) = (v, d')"
    by (cases "dev_read32 D p (dev w)")
  define w1 where "w1 = \<lparr>dev = d', trace = trace w @ [Read32 p v]\<rparr>"
  have v0: "poll_status D p (dev w) 0 = v"
    by (simp add: poll_status_def rd)
  have clear: "v AND 1 = 0"
    using Suc.prems(1) v0 by auto
  have shift: "poll_status D p (dev w1) i = poll_status D p (dev w) (Suc i)" for i
    by (simp add: poll_status_Suc rd w1_def)
  have shiftd: "poll_dev D p (dev w1) i = poll_dev D p (dev w) (Suc i)" for i
    by (simp add: rd w1_def)
  have step: "main_poll D p w = main_poll D p w1"
    by (subst main_poll.simps) (simp add: load32_def rd clear w1_def)
  have "\<forall>i<k. poll_status D p (dev w1) i AND 1 = 0"
    using Suc.prems(1) by (simp add: shift)
  moreover have "poll_status D p (dev w1) k AND 1 \<noteq> 0"
    using Suc.prems(2) by (simp add: shift)
  ultimately have "main_poll D p w1 =
      Some (poll_status D p (dev w1) k,
            \<lparr>dev = poll_dev D p (dev w1) (Suc k),
             trace = trace w1 @ map (\<lambda>i. Read32 p (poll_status D p (dev w1) i)) [0..<Suc k]\<rparr>)"
    by (rule Suc.IH)
  moreover have "map (\<lambda>i. Read32 p (poll_status D p (dev w) i)) [0..<Suc (Suc k)] =
      Read32 p v # map (\<lambda>i. Read32 p (poll_status D p (dev w) (Suc i))) [0..<Suc k]"
    by (simp only: map_upt_Suc v0)
  ultimately show ?case
    by (simp only: step shift shiftd) (simp add: w1_def)
qed

lemma main_poll_Some_imp:
  assumes "main_poll D p w = Some r"
  shows "\<exists>n. poll_status D p (dev w) n AND 1 \<noteq> 0"
proof (rule main_poll.raw_induct
    [where P = "\<lambda>D p w r. \<exists>n. poll_status D p (dev w) n AND 1 \<noteq> 0", OF _ assms])
  fix f :: "'a device \<Rightarrow> nat \<Rightarrow> 'a world \<Rightarrow> (u32 \<times> 'a world) option"
  fix D p w r
  assume IH: "\<And>D p w r. f D p w = Some r \<Longrightarrow> \<exists>n. poll_status D p (dev w) n AND 1 \<noteq> 0"
  assume eq: "(case load32 D p w of
        (status_reg, w') \<Rightarrow>
          if \<not> status_reg AND 1 \<noteq> 0 then f D p w'
          else Some (status_reg, w')) = Some r"
  obtain v d' where rd: "dev_read32 D p (dev w) = (v, d')"
    by (cases "dev_read32 D p (dev w)")
  show "\<exists>n. poll_status D p (dev w) n AND 1 \<noteq> 0"
  proof (cases "v AND 1 = 0")
    case True
    with eq have "f D p \<lparr>dev = d', trace = trace w @ [Read32 p v]\<rparr> = Some r"
      by (simp add: load32_def rd)
    from IH [OF this] obtain n where "poll_status D p d' n AND 1 \<noteq> 0"
      by auto
    then have "poll_status D p (dev w) (Suc n) AND 1 \<noteq> 0"
      by (simp add: poll_status_Suc rd)
    then show ?thesis ..
  next
    case False
    then have "poll_status D p (dev w) 0 AND 1 \<noteq> 0"
      by (simp add: poll_status_def rd)
    then show ?thesis ..
  qed
qed

lemma main_poll_None_iff:
  "main_poll D p w = None \<longleftrightarrow> (\<forall>n. poll_status D p (dev w) n AND 1 = 0)"
proof
  assume "main_poll D p w = None"
  show "\<forall>n. poll_status D p (dev w) n AND 1 = 0"
  proof (rule ccontr)
    assume "\<not> (\<forall>n. poll_status D p (dev w) n AND 1 = 0)"
    then have ex: "\<exists>n. poll_status D p (dev w) n AND 1 \<noteq> 0" by simp
    define k where "k = (LEAST n. poll_status D p (dev w) n AND 1 \<noteq> 0)"
    have "poll_status D p (dev w) k AND 1 \<noteq> 0"
      unfolding k_def using ex by (rule LeastI_ex)
    moreover have "\<forall>i<k. poll_status D p (dev w) i AND 1 = 0"
      unfolding k_def using not_less_Least by blast
    ultimately have "main_poll D p w \<noteq> None"
      by (simp add: main_poll_exit del: upt_Suc)
    with \<open>main_poll D p w = None\<close> show False by simp
  qed
next
  assume "\<forall>n. poll_status D p (dev w) n AND 1 = 0"
  then show "main_poll D p w = None"
    using main_poll_Some_imp [of D p w] by (cases "main_poll D p w") auto
qed

lemma main_poll_Some:
  assumes "main_poll D p w = Some (s, wp)"
  shows "\<exists>k. (\<forall>i<k. poll_status D p (dev w) i AND 1 = 0) \<and>
              poll_status D p (dev w) k AND 1 \<noteq> 0 \<and>
              s = poll_status D p (dev w) k \<and>
              dev wp = poll_dev D p (dev w) (Suc k) \<and>
              trace wp = trace w @ map (\<lambda>i. Read32 p (poll_status D p (dev w) i)) [0..<Suc k]"
proof -
  from main_poll_Some_imp [OF assms]
  have ex: "\<exists>n. poll_status D p (dev w) n AND 1 \<noteq> 0" .
  define k where "k = (LEAST n. poll_status D p (dev w) n AND 1 \<noteq> 0)"
  have set: "poll_status D p (dev w) k AND 1 \<noteq> 0"
    unfolding k_def using ex by (rule LeastI_ex)
  have clear: "\<forall>i<k. poll_status D p (dev w) i AND 1 = 0"
    unfolding k_def using not_less_Least by blast
  from main_poll_exit [OF clear set] assms
  have "s = poll_status D p (dev w) k"
    and "wp = \<lparr>dev = poll_dev D p (dev w) (Suc k),
               trace = trace w @ map (\<lambda>i. Read32 p (poll_status D p (dev w) i)) [0..<Suc k]\<rparr>"
    by simp_all
  with set clear show ?thesis
    by (intro exI [of _ k]) simp
qed

section \<open>Facts about the controller\<close>

lemma main_read_cols_unroll:
  "main_read_cols D ca cd (int r) 0 w =
     \<lparr>dev = snd (result_sweep D ca cd [4 * r, 4 * r + 1, 4 * r + 2, 4 * r + 3] (dev w)),
      trace = trace w @ fst (result_sweep D ca cd [4 * r, 4 * r + 1, 4 * r + 2, 4 * r + 3] (dev w))\<rparr>"
  by (simp add: main_read_cols.simps N_def Let_def store32_def load32_def printf_def
      case_prod_beta algebra_simps) arith

lemma result_sweep_append:
  "result_sweep D ca cd (xs @ ys) d =
     (fst (result_sweep D ca cd xs d) @ fst (result_sweep D ca cd ys (snd (result_sweep D ca cd xs d))),
      snd (result_sweep D ca cd ys (snd (result_sweep D ca cd xs d))))"
  by (induction xs arbitrary: d) (simp_all add: case_prod_beta Let_def)

lemma upt_16: "[0..<16] = [0, 1, 2, 3] @ [4, 5, 6, 7] @ [8, 9, 10, 11] @ [12, 13, 14, 15]"
  by code_simp

lemma main_read_rows_sweep:
  "main_read_rows D ca cd 0 w =
     \<lparr>dev = snd (result_sweep D ca cd [0..<16] (dev w)),
      trace = trace w @ fst (result_sweep D ca cd [0..<16] (dev w))\<rparr>"
proof -
  have rows: "main_read_rows D ca cd 0 w =
      main_read_cols D ca cd (int 3) 0 (main_read_cols D ca cd (int 2) 0
        (main_read_cols D ca cd (int 1) 0 (main_read_cols D ca cd (int 0) 0 w)))"
    by (simp add: main_read_rows.simps M_def)
  show ?thesis
    unfolding rows main_read_cols_unroll upt_16 result_sweep_append
    by simp
qed

lemma result_sweep_registers:
  "\<exists>vals. length vals = length is \<and>
     filter is_access (fst (result_sweep D ca cd is d)) =
       concat (map (\<lambda>(i, v). [Write32 ca (of_nat i), Read32 cd v]) (zip is vals))"
proof (induction "is" arbitrary: d)
  case Nil
  then show ?case by simp
next
  case (Cons i "is")
  obtain v d' where rd: "dev_read32 D cd (dev_write32 D ca (of_nat i) d) = (v, d')"
    by (cases "dev_read32 D cd (dev_write32 D ca (of_nat i) d)")
  from Cons.IH [of d'] obtain vals where "length vals = length is"
    and "filter is_access (fst (result_sweep D ca cd is d')) =
       concat (map (\<lambda>(i, v). [Write32 ca (of_nat i), Read32 cd v]) (zip is vals))"
    by blast
  then have "length (v # vals) = length (i # is) \<and>
     filter is_access (fst (result_sweep D ca cd (i # is) d)) =
       concat (map (\<lambda>(i, v). [Write32 ca (of_nat i), Read32 cd v]) (zip (i # is) (v # vals)))"
    by (simp add: rd case_prod_beta)
  then show ?case by blast
qed
lemma main_load_A_events:
  "\<exists>es. trace (main_load_A D a d 0 w) = trace w @ es \<and>
     filter is_write es = concat (map (A_column_writes a d matrix_A) [0, 1, 2, 3]) \<and>
     (\<forall>e \<in> set es. ev_addr e \<in> {None, Some a, Some d})"
proof -
  define w1 where "w1 = load_matrix_A_column D a d matrix_A 0 w"
  define w2 where "w2 = load_matrix_A_column D a d matrix_A 1 w1"
  define w3 where "w3 = load_matrix_A_column D a d matrix_A 2 w2"
  define w4 where "w4 = load_matrix_A_column D a d matrix_A 3 w3"
  have run: "main_load_A D a d 0 w = w4"
    by (simp add: main_load_A.simps K_def w1_def w2_def w3_def w4_def)
  obtain e1 where e1: "trace w1 = trace w @ e1"
    "filter is_write e1 = A_column_writes a d matrix_A 0"
    "\<forall>e \<in> set e1. ev_addr e \<in> {None, Some a, Some d}"
    unfolding w1_def A_column_writes_def
    using load_matrix_A_column_events [of 0 D a d matrix_A w]
    by (auto simp: MATRIX_DIM_def)
  obtain e2 where e2: "trace w2 = trace w1 @ e2"
    "filter is_write e2 = A_column_writes a d matrix_A 1"
    "\<forall>e \<in> set e2. ev_addr e \<in> {None, Some a, Some d}"
    unfolding w2_def A_column_writes_def
    using load_matrix_A_column_events [of 1 D a d matrix_A w1]
    by (auto simp: MATRIX_DIM_def)
  obtain e3 where e3: "trace w3 = trace w2 @ e3"
    "filter is_write e3 = A_column_writes a d matrix_A 2"
    "\<forall>e \<in> set e3. ev_addr e \<in> {None, Some a, Some d}"
    unfolding w3_def A_column_writes_def
    using load_matrix_A_column_events [of 2 D a d matrix_A w2]
    by (auto simp: MATRIX_DIM_def)
  obtain e4 where e4: "trace w4 = trace w3 @ e4"
    "filter is_write e4 = A_column_writes a d matrix_A 3"
    "\<forall>e \<in> set e4. ev_addr e \<in> {None, Some a, Some d}"
    unfolding w4_def A_column_writes_def
    using load_matrix_A_column_events [of 3 D a d matrix_A w3]
    by (auto simp: MATRIX_DIM_def)
  have "trace w4 = trace w @ (e1 @ e2 @ e3 @ e4)"
    by (simp add: e1(1) e2(1) e3(1) e4(1))
  moreover have "filter is_write (e1 @ e2 @ e3 @ e4) =
      concat (map (A_column_writes a d matrix_A) [0, 1, 2, 3])"
    by (simp add: e1(2) e2(2) e3(2) e4(2))
  moreover have "\<forall>e \<in> set (e1 @ e2 @ e3 @ e4). ev_addr e \<in> {None, Some a, Some d}"
    using e1(3) e2(3) e3(3) e4(3) by auto
  ultimately show ?thesis
    unfolding run by blast
qed

lemma main_load_B_events:
  "\<exists>es. trace (main_load_B D a d 0 w) = trace w @ es \<and>
     filter is_write es = concat (map (B_row_writes a d matrix_B) [0, 1, 2, 3]) \<and>
     (\<forall>e \<in> set es. ev_addr e \<in> {None, Some a, Some d})"
proof -
  define w1 where "w1 = load_matrix_B_row D a d matrix_B 0 w"
  define w2 where "w2 = load_matrix_B_row D a d matrix_B 1 w1"
  define w3 where "w3 = load_matrix_B_row D a d matrix_B 2 w2"
  define w4 where "w4 = load_matrix_B_row D a d matrix_B 3 w3"
  have run: "main_load_B D a d 0 w = w4"
    by (simp add: main_load_B.simps K_def w1_def w2_def w3_def w4_def)
  obtain e1 where e1: "trace w1 = trace w @ e1"
    "filter is_write e1 = B_row_writes a d matrix_B 0"
    "\<forall>e \<in> set e1. ev_addr e \<in> {None, Some a, Some d}"
    unfolding w1_def B_row_writes_def
    using load_matrix_B_row_events [of 0 D a d matrix_B w]
    by (auto simp: MATRIX_DIM_def)
  obtain e2 where e2: "trace w2 = trace w1 @ e2"
    "filter is_write e2 = B_row_writes a d matrix_B 1"
    "\<forall>e \<in> set e2. ev_addr e \<in> {None, Some a, Some d}"
    unfolding w2_def B_row_writes_def
    using load_matrix_B_row_events [of 1 D a d matrix_B w1]
    by (auto simp: MATRIX_DIM_def)
  obtain e3 where e3: "trace w3 = trace w2 @ e3"
    "filter is_write e3 = B_row_writes a d matrix_B 2"
    "\<forall>e \<in> set e3. ev_addr e \<in> {None, Some a, Some d}"
    unfolding w3_def B_row_writes_def
    using load_matrix_B_row_events [of 2 D a d matrix_B w2]
    by (auto simp: MATRIX_DIM_def)
  obtain e4 where e4: "trace w4 = trace w3 @ e4"
    "filter is_write e4 = B_row_writes a d matrix_B 3"
    "\<forall>e \<in> set e4. ev_addr e \<in> {None, Some a, Some d}"
    unfolding w4_def B_row_writes_def
    using load_matrix_B_row_events [of 3 D a d matrix_B w3]
    by (auto simp: MATRIX_DIM_def)
  have "trace w4 = trace w @ (e1 @ e2 @ e3 @ e4)"
    by (simp add: e1(1) e2(1) e3(1) e4(1))
  moreover have "filter is_write (e1 @ e2 @ e3 @ e4) =
      concat (map (B_row_writes a d matrix_B) [0, 1, 2, 3])"
    by (simp add: e1(2) e2(2) e3(2) e4(2))
  moreover have "\<forall>e \<in> set (e1 @ e2 @ e3 @ e4). ev_addr e \<in> {None, Some a, Some d}"
    using e1(3) e2(3) e3(3) e4(3) by auto
  ultimately show ?thesis
    unfolding run by blast
qed

lemma main_start_events:
  "\<exists>pre. trace (main_start MM_BASE D w) =
       trace w @ pre @
         [Write32 (MM_BASE + ADDR_CONTROL_OFFSET) 0x3,
          Printf ''Waiting for multiplication to finish...\<newline>'' []] \<and>
     filter is_write pre =
       concat (map (A_column_writes (MM_BASE + ADDR_A_ADDR_OFFSET)
                      (MM_BASE + ADDR_A_DATA_OFFSET) matrix_A) [0, 1, 2, 3]) @
       concat (map (B_row_writes (MM_BASE + ADDR_B_ADDR_OFFSET)
                      (MM_BASE + ADDR_B_DATA_OFFSET) matrix_B) [0, 1, 2, 3]) \<and>
     (\<forall>e \<in> set pre. ev_addr e \<noteq> Some (MM_BASE + ADDR_CONTROL_OFFSET))"
proof -
  define aA where "aA = MM_BASE + ADDR_A_ADDR_OFFSET"
  define dA where "dA = MM_BASE + ADDR_A_DATA_OFFSET"
  define aB where "aB = MM_BASE + ADDR_B_ADDR_OFFSET"
  define dB where "dB = MM_BASE + ADDR_B_DATA_OFFSET"
  define ctrl where "ctrl = MM_BASE + ADDR_CONTROL_OFFSET"
  define p1 where "p1 =
    [Printf ''Nios II 4x4 Matrix Multiplier Control Software Starting...\<newline>'' [],
     Printf ''------------------------------------------------------------- \<newline>'' [],
     Printf ''Loading matrix A...\<newline>'' []]"
  define p2 where "p2 =
    [Printf ''--------------------------------------------------------------\<newline>'' [],
     Printf ''Loading matrix B...\<newline>'' []]"
  define p3 where "p3 = [Printf ''\<newline>Starting multiplication...\<newline>'' []]"
  define w1 where "w1 = \<lparr>dev = dev w, trace = trace w @ p1\<rparr>"
  define wA where "wA = main_load_A D aA dA 0 w1"
  define w2 where "w2 = \<lparr>dev = dev wA, trace = trace wA @ p2\<rparr>"
  define wB where "wB = main_load_B D aB dB 0 w2"
  have neq: "aA \<noteq> ctrl" "dA \<noteq> ctrl" "aB \<noteq> ctrl" "dB \<noteq> ctrl"
    by (simp_all add: aA_def dA_def aB_def dB_def ctrl_def ADDR_A_ADDR_OFFSET_def
        ADDR_A_DATA_OFFSET_def ADDR_B_ADDR_OFFSET_def ADDR_B_DATA_OFFSET_def
        ADDR_CONTROL_OFFSET_def)
  have run: "trace (main_start MM_BASE D w) =
      trace wB @ p3 @ [Write32 ctrl 0x3, Printf ''Waiting for multiplication to finish...\<newline>'' []]"
    by (simp add: main_start_def Let_def printf_def store32_def wB_def w2_def wA_def w1_def
        p1_def p2_def p3_def aA_def dA_def aB_def dB_def ctrl_def)
  obtain eA where eA: "trace wA = trace w1 @ eA"
    "filter is_write eA = concat (map (A_column_writes aA dA matrix_A) [0, 1, 2, 3])"
    "\<forall>e \<in> set eA. ev_addr e \<in> {None, Some aA, Some dA}"
    unfolding wA_def using main_load_A_events [of D aA dA w1] by blast
  obtain eB where eB: "trace wB = trace w2 @ eB"
    "filter is_write eB = concat (map (B_row_writes aB dB matrix_B) [0, 1, 2, 3])"
    "\<forall>e \<in> set eB. ev_addr e \<in> {None, Some aB, Some dB}"
    unfolding wB_def using main_load_B_events [of D aB dB w2] by blast
  define pre where "pre = p1 @ eA @ p2 @ eB @ p3"
  have "trace (main_start MM_BASE D w) =
      trace w @ pre @ [Write32 ctrl 0x3, Printf ''Waiting for multiplication to finish...\<newline>'' []]"
    by (simp add: run eB(1) w2_def eA(1) w1_def pre_def)
  moreover have "filter is_write pre =
      concat (map (A_column_writes aA dA matrix_A) [0, 1, 2, 3]) @
      concat (map (B_row_writes aB dB matrix_B) [0, 1, 2, 3])"
    unfolding pre_def filter_append eA(2) eB(2)
    by (simp add: p1_def p2_def p3_def)
  moreover have "\<forall>e \<in> set pre. ev_addr e \<noteq> Some ctrl"
    using eA(3) eB(3) neq
    by (auto simp: pre_def p1_def p2_def p3_def)
  ultimately show ?thesis
    unfolding aA_def dA_def aB_def dB_def ctrl_def by blast
qed
lemma result_sweep_addresses:
  "\<forall>e \<in> set (fst (result_sweep D ca cd is d)). ev_addr e \<in> {None, Some ca, Some cd}"
  by (induction "is" arbitrary: d) (simp_all add: case_prod_beta Let_def)

lemma main_finish_sweep:
  "main_finish MM_BASE D w =
     (0, \<lparr>dev = snd (result_sweep D (MM_BASE + ADDR_C_ADDR_OFFSET) (MM_BASE + ADDR_C_DATA_OFFSET)
                      [0..<16] (dev w)),
          trace = trace w @
            [Printf ''Multiplication finished!\<newline>'' [],
             Printf ''\<newline>Reading results from C matrix BRAM...\<newline>'' []] @
            fst (result_sweep D (MM_BASE + ADDR_C_ADDR_OFFSET) (MM_BASE + ADDR_C_DATA_OFFSET)
                   [0..<16] (dev w)) @
            [Printf ''\<newline>Nios II application finished.\<newline>'' []]\<rparr>)"
  by (simp add: main_finish_def Let_def printf_def main_read_rows_sweep del: upt_Suc)

lemma main_phases:
  assumes "main MM_BASE D w = Some (r, w')"
  shows "\<exists>s wp. main_poll D (MM_BASE + ADDR_STATUS_OFFSET) (main_start MM_BASE D w) = Some (s, wp) \<and>
                 main_finish MM_BASE D wp = (r, w')"
  using assms
  by (auto simp: main_def Let_def split: option.splits)

lemma main_control_accesses:
  assumes "main MM_BASE D w = Some (r, w')"
  shows "accesses_at (MM_BASE + ADDR_CONTROL_OFFSET) (new_events w w') =
           [Write32 (MM_BASE + ADDR_CONTROL_OFFSET) 0x3] \<and>
         (\<exists>post. new_events w w' = new_events w (main_start MM_BASE D w) @ post)"
proof -
  define ctrl where "ctrl = MM_BASE + ADDR_CONTROL_OFFSET"
  define st where "st = MM_BASE + ADDR_STATUS_OFFSET"
  define ca where "ca = MM_BASE + ADDR_C_ADDR_OFFSET"
  define cd where "cd = MM_BASE + ADDR_C_DATA_OFFSET"
  define ws where "ws = main_start MM_BASE D w"
  have neq: "st \<noteq> ctrl" "ca \<noteq> ctrl" "cd \<noteq> ctrl"
    by (simp_all add: st_def ca_def cd_def ctrl_def ADDR_STATUS_OFFSET_def
        ADDR_C_ADDR_OFFSET_def ADDR_C_DATA_OFFSET_def ADDR_CONTROL_OFFSET_def)
  obtain s wp where poll: "main_poll D st ws = Some (s, wp)"
    and fin: "main_finish MM_BASE D wp = (r, w')"
    using main_phases [OF assms] unfolding st_def ws_def by blast
  obtain pre where pre: "trace ws = trace w @ pre @
         [Write32 ctrl 0x3, Printf ''Waiting for multiplication to finish...\<newline>'' []]"
    and pre_addr: "\<forall>e \<in> set pre. ev_addr e \<noteq> Some ctrl"
    using main_start_events [of MM_BASE D w] unfolding ws_def ctrl_def by blast
  obtain k where polls: "trace wp =
      trace ws @ map (\<lambda>i. Read32 st (poll_status D st (dev ws) i)) [0..<Suc k]"
    using main_poll_Some [OF poll] by blast
  define sw where "sw = fst (result_sweep D ca cd [0..<16] (dev wp))"
  have sw_addr: "\<forall>e \<in> set sw. ev_addr e \<in> {None, Some ca, Some cd}"
    unfolding sw_def by (rule result_sweep_addresses)
  have tr: "trace w' = trace wp @
            [Printf ''Multiplication finished!\<newline>'' [],
             Printf ''\<newline>Reading results from C matrix BRAM...\<newline>'' []] @ sw @
            [Printf ''\<newline>Nios II application finished.\<newline>'' []]"
    using fin unfolding main_finish_sweep sw_def ca_def cd_def by auto
  define polls where "polls = map (\<lambda>i. Read32 st (poll_status D st (dev ws) i)) [0..<Suc k]"
  have all: "trace w' = trace w @ pre @
         [Write32 ctrl 0x3, Printf ''Waiting for multiplication to finish...\<newline>'' []] @
         polls @
            [Printf ''Multiplication finished!\<newline>'' [],
             Printf ''\<newline>Reading results from C matrix BRAM...\<newline>'' []] @ sw @
            [Printf ''\<newline>Nios II application finished.\<newline>'' []]"
    unfolding tr polls pre polls_def by simp
  have f_pre: "filter (\<lambda>e. ev_addr e = Some ctrl) pre = []"
    using pre_addr by (simp add: filter_empty_conv)
  have f_polls: "filter (\<lambda>e. ev_addr e = Some ctrl) polls = []"
    using neq(1) by (simp add: polls_def filter_empty_conv del: upt_Suc)
  have f_sw: "filter (\<lambda>e. ev_addr e = Some ctrl) sw = []"
    using sw_addr neq(2,3) by (auto simp: filter_empty_conv)
  have "accesses_at ctrl (new_events w w') = [Write32 ctrl 0x3]"
    unfolding accesses_at_def new_events_def all
    by (simp add: f_pre f_polls f_sw)
  moreover have "new_events w w' = new_events w ws @ polls @
            [Printf ''Multiplication finished!\<newline>'' [],
             Printf ''\<newline>Reading results from C matrix BRAM...\<newline>'' []] @ sw @
            [Printf ''\<newline>Nios II application finished.\<newline>'' []]"
    unfolding new_events_def all pre by simp
  ultimately show ?thesis
    unfolding ctrl_def ws_def by blast
qed

lemma test_run_start: "dev (main_start 0 test_device (test_world 1)) = 1"
  by (simp add: main_start_def Let_def printf_def store32_def store64_def load64_def
      main_load_A.simps main_load_B.simps K_def load_matrix_A_column_def load_matrix_B_row_def
      MATRIX_DIM_def test_device_def test_world_def case_prod_beta)

lemma test_run_poll:
  "\<exists>wp. main_poll test_device (0 + ADDR_STATUS_OFFSET) (main_start 0 test_device (test_world 1))
          = Some (1, wp)"
proof -
  have "\<forall>i<1. poll_status test_device (0 + ADDR_STATUS_OFFSET)
          (dev (main_start 0 test_device (test_world 1))) i AND 1 = 0"
    unfolding test_run_start by (simp add: poll_status_def test_device_def)
  moreover have "poll_status test_device (0 + ADDR_STATUS_OFFSET)
          (dev (main_start 0 test_device (test_world 1))) 1 AND 1 \<noteq> 0"
    unfolding test_run_start by (simp add: poll_status_def test_device_def)
  moreover have "poll_status test_device (0 + ADDR_STATUS_OFFSET)
          (dev (main_start 0 test_device (test_world 1))) 1 = 1"
    unfolding test_run_start by (simp add: poll_status_def test_device_def)
  ultimately show ?thesis
    using main_poll_exit [of 1 test_device "0 + ADDR_STATUS_OFFSET"
        "main_start 0 test_device (test_world 1)"]
    by (simp del: upt_Suc)
qed

lemma test_run_returns: "\<exists>w'. main 0 test_device (test_world 1) = Some (0, w')"
  using test_run_poll
  by (auto simp: main_def Let_def main_finish_sweep simp del: upt_Suc)
lemma test_poll_run:
  "main_poll test_device 8 (test_world 2) =
     Some (1, \<lparr>dev = 0, trace = [Read32 8 0, Read32 8 0, Read32 8 1]\<rparr>)"
proof -
  have "\<forall>i<2. poll_status test_device 8 (dev (test_world 2)) i AND 1 = 0"
    by (simp add: poll_status_def test_device_def test_world_def less_Suc_eq numeral_2_eq_2)
  moreover have "poll_status test_device 8 (dev (test_world 2)) 2 AND 1 \<noteq> 0"
    by (simp add: poll_status_def test_device_def test_world_def numeral_2_eq_2)
  ultimately show ?thesis
    using main_poll_exit [of 2 test_device 8 "test_world 2"]
    by (simp add: poll_status_def test_device_def test_world_def numeral_2_eq_2 numeral_3_eq_3)
qed

section \<open>The packer: claims\<close>

text \<open>
  Claim C1. For a 4x4 matrix and a column index below 4, the column loader writes one
  address word and one data word, and bits \<open>[row*16, row*16+16)\<close> of the data word are
  \<open>matrix[row][column_index]\<close> for every row below 4. The four fields fill the 64 bits
  of the word, so it holds these four elements and nothing else.
\<close>

theorem load_matrix_A_column_data_fields:
  assumes "wf_matrix mat" and "col_idx < MATRIX_DIM"
  shows "\<exists>aw dw.
           filter is_write (new_events w (load_matrix_A_column D addr data mat col_idx w)) =
             [Write64 addr aw, Write64 data dw] \<and>
           (\<forall>row<4. (ucast (drop_bit (row * 16) dw) :: u16) = mat ! row ! unat col_idx)"
proof -
  obtain es where es: "trace (load_matrix_A_column D addr data mat col_idx w) = trace w @ es"
    and wr: "filter is_write es =
             [Write64 addr (fst (load_matrix_A_column_loop mat col_idx 0 (0, 0))),
              Write64 data (snd (load_matrix_A_column_loop mat col_idx 0 (0, 0)))]"
    using load_matrix_A_column_events [OF assms(2)] by blast
  have dw: "snd (load_matrix_A_column_loop mat col_idx 0 (0, 0)) =
      ((ucast (mat ! 0 ! unat col_idx) OR push_bit 16 (ucast (mat ! 1 ! unat col_idx)))
        OR push_bit 32 (ucast (mat ! 2 ! unat col_idx)))
        OR push_bit 48 (ucast (mat ! 3 ! unat col_idx))"
    by (simp only: load_matrix_A_column_loop_unroll snd_conv)
  have "(ucast (drop_bit (row * 16) (snd (load_matrix_A_column_loop mat col_idx 0 (0, 0)))) :: u16)
          = mat ! row ! unat col_idx" if "row < 4" for row
    unfolding dw data_fields [OF that]
    by (rule nth_four [OF that, of "\<lambda>r. mat ! r ! unat col_idx"])
  with wr show ?thesis
    by (simp add: new_events_append [OF es])
qed

theorem load_matrix_A_column_data_fields_witness:
  "wf_matrix matrix_A \<and> (1 :: u8) < MATRIX_DIM \<and>
   (\<exists>aw dw.
      filter is_write (new_events (test_world 0)
        (load_matrix_A_column test_device 0x20 0x28 matrix_A 1 (test_world 0))) =
        [Write64 0x20 aw, Write64 0x28 dw] \<and>
      (\<forall>row<4. (ucast (drop_bit (row * 16) dw) :: u16) = matrix_A ! row ! unat (1 :: u8)))"
  using load_matrix_A_column_data_fields
    [where mat = matrix_A and col_idx = 1 and w = "test_world 0" and D = test_device
       and addr = "0x20" and data = "0x28"]
  by (simp add: wf_matrix_def matrix_A_def MATRIX_DIM_def)

text \<open>
  Claim C3. For bank and element indices below 4, \<open>compose_bram_address\<close> returns
  \<open>element_index | (bank_index << 2)\<close>, as a 64-bit word and as a number, and the result
  is below 16: it fits in 4 bits.
\<close>

theorem compose_bram_address_value:
  assumes "bank_idx < 4" and "element_idx < 4"
  shows "compose_bram_address bank_idx element_idx =
           ucast element_idx OR push_bit 2 (ucast bank_idx) \<and>
         unat (compose_bram_address bank_idx element_idx) =
           unat element_idx OR push_bit 2 (unat bank_idx) \<and>
         compose_bram_address bank_idx element_idx < 16"
  using u8_less_4_cases [OF assms(1)] u8_less_4_cases [OF assms(2)]
  by (elim disjE) (simp_all add: compose_bram_address_eq)

theorem compose_bram_address_value_witness:
  "(3 :: u8) < 4 \<and> (2 :: u8) < 4 \<and>
   compose_bram_address 3 2 = ucast (2 :: u8) OR push_bit 2 (ucast (3 :: u8)) \<and>
   unat (compose_bram_address 3 2) = unat (2 :: u8) OR push_bit 2 (unat (3 :: u8)) \<and>
   compose_bram_address 3 2 < 16 \<and> compose_bram_address 3 2 = 14"
  using compose_bram_address_value [of 3 2]
  by (simp add: compose_bram_address_eq)

text \<open>
  Claim C9. On indices below 4, \<open>compose_bram_address\<close> is injective: two distinct pairs
  (bank index, element index) get different addresses.
\<close>

theorem compose_bram_address_injective:
  assumes "bank_idx < 4" and "element_idx < 4" and "bank_idx' < 4" and "element_idx' < 4"
    and "(bank_idx, element_idx) \<noteq> (bank_idx', element_idx')"
  shows "compose_bram_address bank_idx element_idx \<noteq> compose_bram_address bank_idx' element_idx'"
proof
  assume "compose_bram_address bank_idx element_idx = compose_bram_address bank_idx' element_idx'"
  then have "unat element_idx + 4 * unat bank_idx = unat element_idx' + 4 * unat bank_idx'"
    using assms by (simp add: compose_bram_address_unat [symmetric])
  moreover have "unat element_idx < 4" "unat element_idx' < 4"
    using assms by (simp_all add: word_less_nat_alt)
  ultimately have "unat element_idx = unat element_idx' \<and> unat bank_idx = unat bank_idx'"
    by arith
  then have "element_idx = element_idx' \<and> bank_idx = bank_idx'"
    by (simp add: word_unat_eq_iff)
  with assms(5) show False by simp
qed

theorem compose_bram_address_injective_witness:
  "(1 :: u8) < 4 \<and> (2 :: u8) < 4 \<and> ((1 :: u8), (2 :: u8)) \<noteq> (2, 1) \<and>
   compose_bram_address 1 2 \<noteq> compose_bram_address 2 1"
  using compose_bram_address_injective [of 1 2 2 1]
  by simp

text \<open>
  Claim C2. For a 4x4 matrix and a row index below 4, the row loader runs its slot over
  the columns: field \<open>col\<close> of the address word (4 bits at offset \<open>col*4\<close>) is the
  address composed with bank index \<open>col\<close> and element index \<open>row_index\<close>, and bits
  \<open>[col*16, col*16+16)\<close> of the data word are \<open>matrix[row_index][col]\<close>.
\<close>

theorem load_matrix_B_row_fields:
  assumes "wf_matrix mat" and "row_idx < MATRIX_DIM"
  shows "\<exists>aw dw.
           filter is_write (new_events w (load_matrix_B_row D addr data mat row_idx w)) =
             [Write64 addr aw, Write64 data dw] \<and>
           (\<forall>col<4. take_bit 4 (drop_bit (col * 4) aw) = compose_bram_address (of_nat col) row_idx \<and>
                     (ucast (drop_bit (col * 16) dw) :: u16) = mat ! unat row_idx ! col)"
proof -
  obtain es where es: "trace (load_matrix_B_row D addr data mat row_idx w) = trace w @ es"
    and wr: "filter is_write es =
             [Write64 addr (fst (load_matrix_B_row_loop mat row_idx 0 (0, 0))),
              Write64 data (snd (load_matrix_B_row_loop mat row_idx 0 (0, 0)))]"
    using load_matrix_B_row_events [OF assms(2)] by blast
  from assms(2) have r4: "row_idx < 4"
    by (simp add: MATRIX_DIM_def)
  have aw: "fst (load_matrix_B_row_loop mat row_idx 0 (0, 0)) =
      ((compose_bram_address 0 row_idx OR push_bit 4 (compose_bram_address 1 row_idx))
        OR push_bit 8 (compose_bram_address 2 row_idx))
        OR push_bit 12 (compose_bram_address 3 row_idx)"
    by (simp only: load_matrix_B_row_loop_unroll fst_conv)
  have dw: "snd (load_matrix_B_row_loop mat row_idx 0 (0, 0)) =
      ((ucast (mat ! unat row_idx ! 0) OR push_bit 16 (ucast (mat ! unat row_idx ! 1)))
        OR push_bit 32 (ucast (mat ! unat row_idx ! 2)))
        OR push_bit 48 (ucast (mat ! unat row_idx ! 3))"
    by (simp only: load_matrix_B_row_loop_unroll snd_conv)
  have "take_bit 4 (drop_bit (col * 4) (fst (load_matrix_B_row_loop mat row_idx 0 (0, 0))))
          = compose_bram_address (of_nat col) row_idx" if "col < 4" for col
    unfolding aw by (rule addr_fields [OF that r4])
  moreover
  have "(ucast (drop_bit (col * 16) (snd (load_matrix_B_row_loop mat row_idx 0 (0, 0)))) :: u16)
          = mat ! unat row_idx ! col" if "col < 4" for col
    unfolding dw data_fields [OF that]
    by (rule nth_four [OF that, of "\<lambda>c. mat ! unat row_idx ! c"])
  ultimately show ?thesis
    using wr by (simp add: new_events_append [OF es])
qed

theorem load_matrix_B_row_fields_witness:
  "wf_matrix matrix_B \<and> (2 :: u8) < MATRIX_DIM \<and>
   (\<exists>aw dw.
      filter is_write (new_events (test_world 0)
        (load_matrix_B_row test_device 0x30 0x38 matrix_B 2 (test_world 0))) =
        [Write64 0x30 aw, Write64 0x38 dw] \<and>
      (\<forall>col<4. take_bit 4 (drop_bit (col * 4) aw) = compose_bram_address (of_nat col) 2 \<and>
                (ucast (drop_bit (col * 16) dw) :: u16) = matrix_B ! unat (2 :: u8) ! col))"
  using load_matrix_B_row_fields
    [where mat = matrix_B and row_idx = 2 and w = "test_world 0" and D = test_device
       and addr = "0x30" and data = "0x38"]
  by (simp add: wf_matrix_def matrix_B_def MATRIX_DIM_def)

text \<open>
  Claim C4, as amended. For the sample matrix A and column 0 the column loader writes the
  data word \<open>1 | (5<<16) | (9<<32) | (13<<48)\<close> and the address word
  \<open>0 | (4<<4) | (8<<8) | (12<<12)\<close>: the 4-bit field of row \<open>r\<close> holds the composed
  address \<open>r << 2\<close>, not \<open>r\<close>.
\<close>

theorem load_matrix_A_column_sample_column_0:
  "filter is_write (new_events w (load_matrix_A_column D addr data matrix_A 0 w)) =
     [Write64 addr (0 OR push_bit 4 4 OR push_bit 8 8 OR push_bit 12 12),
      Write64 data (1 OR push_bit 16 5 OR push_bit 32 9 OR push_bit 48 13)]"
proof -
  have "(0 :: u8) < MATRIX_DIM" by (simp add: MATRIX_DIM_def)
  from load_matrix_A_column_events [OF this]
  obtain es where es: "trace (load_matrix_A_column D addr data matrix_A 0 w) = trace w @ es"
    and wr: "filter is_write es =
             [Write64 addr (fst (load_matrix_A_column_loop matrix_A 0 0 (0, 0))),
              Write64 data (snd (load_matrix_A_column_loop matrix_A 0 0 (0, 0)))]"
    by blast
  have "load_matrix_A_column_loop matrix_A 0 0 (0, 0) =
      (0 OR push_bit 4 4 OR push_bit 8 8 OR push_bit 12 12,
       1 OR push_bit 16 5 OR push_bit 32 9 OR push_bit 48 13)"
    by (simp add: load_matrix_A_column_loop_unroll compose_bram_address_eq matrix_A_def)
  with wr show ?thesis
    by (simp add: new_events_append [OF es])
qed

text \<open>
  Claim C4 as stated gives the address word \<open>0 | (1<<4) | (2<<8) | (3<<12)\<close>; that is not
  what the loader writes.
\<close>

theorem load_matrix_A_column_sample_address_counterexample:
  "filter is_write (new_events (test_world 0)
     (load_matrix_A_column test_device 0x20 0x28 matrix_A 0 (test_world 0))) \<noteq>
     [Write64 0x20 (0 OR push_bit 4 1 OR push_bit 8 2 OR push_bit 12 3),
      Write64 0x28 (1 OR push_bit 16 5 OR push_bit 32 9 OR push_bit 48 13)]"
  by (simp add: load_matrix_A_column_def MATRIX_DIM_def Let_def store64_def load64_def
      printf_def test_device_def test_world_def new_events_def
      load_matrix_A_column_loop_unroll compose_bram_address_eq matrix_A_def)

text \<open>
  Claim C5. With an index of 4 or more, either loader does one thing: it prints the
  invalid-index message with the index. It returns with the device state unchanged and
  no register access in the trace, and the caller goes on.
\<close>

theorem loaders_reject_invalid_index:
  assumes "idx \<ge> MATRIX_DIM"
  shows "load_matrix_A_column D addr data mat idx w =
           \<lparr>dev = dev w,
            trace = trace w @
              [Printf ''Error: Column index %u out of bounds for Matrix A.\<newline>'' [uint idx]]\<rparr> \<and>
         load_matrix_B_row D addr data mat idx w =
           \<lparr>dev = dev w,
            trace = trace w @
              [Printf ''Error: Column index %u out of bounds for Matrix A.\<newline>'' [uint idx]]\<rparr>"
  using assms
  by (simp add: load_matrix_A_column_def load_matrix_B_row_def printf_def)

theorem loaders_reject_invalid_index_witness:
  "(4 :: u8) \<ge> MATRIX_DIM \<and>
   load_matrix_A_column test_device 0x20 0x28 matrix_A 4 (test_world 0) =
     \<lparr>dev = 0,
      trace = [Printf ''Error: Column index %u out of bounds for Matrix A.\<newline>'' [4]]\<rparr> \<and>
   load_matrix_B_row test_device 0x30 0x38 matrix_B 4 (test_world 0) =
     \<lparr>dev = 0,
      trace = [Printf ''Error: Column index %u out of bounds for Matrix A.\<newline>'' [4]]\<rparr>"
  using loaders_reject_invalid_index
    [where idx = 4 and D = test_device and addr = "0x20" and data = "0x28"
       and mat = matrix_A and w = "test_world 0"]
    loaders_reject_invalid_index
    [where idx = 4 and D = test_device and addr = "0x30" and data = "0x38"
       and mat = matrix_B and w = "test_world 0"]
  by (simp add: MATRIX_DIM_def test_world_def)

text \<open>
  Claim C10. For an index \<open>i\<close> below 4 and any two matrices, the column loader on column
  \<open>i\<close> and the row loader on row \<open>i\<close> write the same address word, the OR over the slots
  \<open>s\<close> of \<open>(i | s<<2) << (s*4)\<close>. Both write an address word and then a data word; the
  data words differ in the elements selected: slot \<open>s\<close> holds \<open>A[s][i]\<close> for the column
  loader and \<open>B[i][s]\<close> for the row loader. The register accesses of both follow one
  pattern: the two writes, then a read of each register for the console.
\<close>

theorem loaders_same_address_word:
  assumes "i < MATRIX_DIM"
  shows "\<exists>aw dwA dwB.
           filter is_write (new_events wA (load_matrix_A_column DA addrA dataA matA i wA)) =
             [Write64 addrA aw, Write64 dataA dwA] \<and>
           filter is_write (new_events wB (load_matrix_B_row DB addrB dataB matB i wB)) =
             [Write64 addrB aw, Write64 dataB dwB] \<and>
           map ev_addr (filter is_access
               (new_events wA (load_matrix_A_column DA addrA dataA matA i wA))) =
             [Some addrA, Some dataA, Some addrA, Some dataA] \<and>
           map ev_addr (filter is_access
               (new_events wB (load_matrix_B_row DB addrB dataB matB i wB))) =
             [Some addrB, Some dataB, Some addrB, Some dataB] \<and>
           aw = (((ucast i OR push_bit 2 0) OR push_bit 4 (ucast i OR push_bit 2 1))
                   OR push_bit 8 (ucast i OR push_bit 2 2))
                   OR push_bit 12 (ucast i OR push_bit 2 3) \<and>
           (\<forall>s<4. (ucast (drop_bit (s * 16) dwA) :: u16) = matA ! s ! unat i \<and>
                   (ucast (drop_bit (s * 16) dwB) :: u16) = matB ! unat i ! s)"
proof -
  from load_matrix_A_column_events
      [OF assms, where D = DA and addr = addrA and data = dataA and mat = matA and w = wA]
  obtain esA where allA:
    "trace (load_matrix_A_column DA addrA dataA matA i wA) = trace wA @ esA \<and>
     filter is_write esA =
       [Write64 addrA (fst (load_matrix_A_column_loop matA i 0 (0, 0))),
        Write64 dataA (snd (load_matrix_A_column_loop matA i 0 (0, 0)))] \<and>
     map ev_addr (filter is_access esA) = [Some addrA, Some dataA, Some addrA, Some dataA] \<and>
     (\<forall>e \<in> set esA. ev_addr e \<in> {None, Some addrA, Some dataA})"
    by (rule exE)
  have esA: "trace (load_matrix_A_column DA addrA dataA matA i wA) = trace wA @ esA"
    using allA by (rule conjunct1)
  have wrA: "filter is_write esA =
       [Write64 addrA (fst (load_matrix_A_column_loop matA i 0 (0, 0))),
        Write64 dataA (snd (load_matrix_A_column_loop matA i 0 (0, 0)))]"
    using allA by (rule conjunct2 [THEN conjunct1])
  have acA: "map ev_addr (filter is_access esA) = [Some addrA, Some dataA, Some addrA, Some dataA]"
    using allA by (rule conjunct2 [THEN conjunct2, THEN conjunct1])
  from load_matrix_B_row_events
      [OF assms, where D = DB and addr = addrB and data = dataB and mat = matB and w = wB]
  obtain esB where allB:
    "trace (load_matrix_B_row DB addrB dataB matB i wB) = trace wB @ esB \<and>
     filter is_write esB =
       [Write64 addrB (fst (load_matrix_B_row_loop matB i 0 (0, 0))),
        Write64 dataB (snd (load_matrix_B_row_loop matB i 0 (0, 0)))] \<and>
     map ev_addr (filter is_access esB) = [Some addrB, Some dataB, Some addrB, Some dataB] \<and>
     (\<forall>e \<in> set esB. ev_addr e \<in> {None, Some addrB, Some dataB})"
    by (rule exE)
  have esB: "trace (load_matrix_B_row DB addrB dataB matB i wB) = trace wB @ esB"
    using allB by (rule conjunct1)
  have wrB: "filter is_write esB =
       [Write64 addrB (fst (load_matrix_B_row_loop matB i 0 (0, 0))),
        Write64 dataB (snd (load_matrix_B_row_loop matB i 0 (0, 0)))]"
    using allB by (rule conjunct2 [THEN conjunct1])
  have acB: "map ev_addr (filter is_access esB) = [Some addrB, Some dataB, Some addrB, Some dataB]"
    using allB by (rule conjunct2 [THEN conjunct2, THEN conjunct1])
  have awA: "fst (load_matrix_A_column_loop matA i 0 (0, 0)) =
      (((ucast i OR push_bit 2 0) OR push_bit 4 (ucast i OR push_bit 2 1))
          OR push_bit 8 (ucast i OR push_bit 2 2)) OR push_bit 12 (ucast i OR push_bit 2 3)"
    by (simp add: load_matrix_A_column_loop_unroll compose_bram_address_eq)
  have awB: "fst (load_matrix_B_row_loop matB i 0 (0, 0)) =
      (((ucast i OR push_bit 2 0) OR push_bit 4 (ucast i OR push_bit 2 1))
          OR push_bit 8 (ucast i OR push_bit 2 2)) OR push_bit 12 (ucast i OR push_bit 2 3)"
    by (simp add: load_matrix_B_row_loop_unroll compose_bram_address_eq)
  have dwA: "snd (load_matrix_A_column_loop matA i 0 (0, 0)) =
      ((ucast (matA ! 0 ! unat i) OR push_bit 16 (ucast (matA ! 1 ! unat i)))
        OR push_bit 32 (ucast (matA ! 2 ! unat i)))
        OR push_bit 48 (ucast (matA ! 3 ! unat i))"
    by (simp only: load_matrix_A_column_loop_unroll snd_conv)
  have dwB: "snd (load_matrix_B_row_loop matB i 0 (0, 0)) =
      ((ucast (matB ! unat i ! 0) OR push_bit 16 (ucast (matB ! unat i ! 1)))
        OR push_bit 32 (ucast (matB ! unat i ! 2)))
        OR push_bit 48 (ucast (matB ! unat i ! 3))"
    by (simp only: load_matrix_B_row_loop_unroll snd_conv)
  have fA: "(ucast (drop_bit (s * 16) (snd (load_matrix_A_column_loop matA i 0 (0, 0)))) :: u16)
          = matA ! s ! unat i" if "s < 4" for s
    unfolding dwA data_fields [OF that]
    by (rule nth_four [OF that, of "\<lambda>r. matA ! r ! unat i"])
  have fB: "(ucast (drop_bit (s * 16) (snd (load_matrix_B_row_loop matB i 0 (0, 0)))) :: u16)
          = matB ! unat i ! s" if "s < 4" for s
    unfolding dwB data_fields [OF that]
    by (rule nth_four [OF that, of "\<lambda>c. matB ! unat i ! c"])
  show ?thesis
    unfolding new_events_append [OF esA] new_events_append [OF esB] wrA wrB acA acB
      awA [symmetric]
    using awA awB fA fB by auto
qed

theorem loaders_same_address_word_witness:
  "(3 :: u8) < MATRIX_DIM \<and>
   (\<exists>aw dwA dwB.
      filter is_write (new_events (test_world 0)
        (load_matrix_A_column test_device 0x20 0x28 matrix_A 3 (test_world 0))) =
        [Write64 0x20 aw, Write64 0x28 dwA] \<and>
      filter is_write (new_events (test_world 0)
        (load_matrix_B_row test_device 0x30 0x38 matrix_B 3 (test_world 0))) =
        [Write64 0x30 aw, Write64 0x38 dwB] \<and>
      map ev_addr (filter is_access (new_events (test_world 0)
        (load_matrix_A_column test_device 0x20 0x28 matrix_A 3 (test_world 0)))) =
        [Some 0x20, Some 0x28, Some 0x20, Some 0x28] \<and>
      map ev_addr (filter is_access (new_events (test_world 0)
        (load_matrix_B_row test_device 0x30 0x38 matrix_B 3 (test_world 0)))) =
        [Some 0x30, Some 0x38, Some 0x30, Some 0x38] \<and>
      aw = 0xFB73 \<and>
      (\<forall>s<4. (ucast (drop_bit (s * 16) dwA) :: u16) = matrix_A ! s ! 3 \<and>
              (ucast (drop_bit (s * 16) dwB) :: u16) = matrix_B ! 3 ! s))"
  using loaders_same_address_word
    [where i = 3 and wA = "test_world 0" and DA = test_device and addrA = "0x20"
       and dataA = "0x28" and matA = matrix_A and wB = "test_world 0" and DB = test_device
       and addrB = "0x30" and dataB = "0x38" and matB = matrix_B]
  by (simp add: MATRIX_DIM_def)

section \<open>The controller: claims\<close>

text \<open>
  Claim C6, as amended. \<open>main\<close> writes the command value 3 to the control register at
  offset 0x00 exactly once, as a 32-bit access (the pointer is a \<open>volatile alt_u32 *\<close>).
  The write comes after the four write pairs of the columns of A and the four write
  pairs of the rows of B, which are all the register writes before it, and no other
  event of a run touches the control register. The first part holds whether or not the
  polling loop ever ends.
\<close>

theorem main_trigger_write:
  "\<exists>pre. new_events w (main_start MM_BASE D w) =
            pre @ [Write32 (MM_BASE + ADDR_CONTROL_OFFSET) 0x3,
                   Printf ''Waiting for multiplication to finish...\<newline>'' []] \<and>
         filter is_write pre =
           concat (map (A_column_writes (MM_BASE + ADDR_A_ADDR_OFFSET)
                          (MM_BASE + ADDR_A_DATA_OFFSET) matrix_A) [0, 1, 2, 3]) @
           concat (map (B_row_writes (MM_BASE + ADDR_B_ADDR_OFFSET)
                          (MM_BASE + ADDR_B_DATA_OFFSET) matrix_B) [0, 1, 2, 3]) \<and>
         accesses_at (MM_BASE + ADDR_CONTROL_OFFSET) pre = [] \<and>
         (\<forall>r w'. main MM_BASE D w = Some (r, w') \<longrightarrow>
            (\<exists>post. new_events w w' = new_events w (main_start MM_BASE D w) @ post) \<and>
            accesses_at (MM_BASE + ADDR_CONTROL_OFFSET) (new_events w w') =
              [Write32 (MM_BASE + ADDR_CONTROL_OFFSET) 0x3])"
proof -
  obtain pre where pre: "trace (main_start MM_BASE D w) =
       trace w @ pre @
         [Write32 (MM_BASE + ADDR_CONTROL_OFFSET) 0x3,
          Printf ''Waiting for multiplication to finish...\<newline>'' []]"
    and wr: "filter is_write pre =
       concat (map (A_column_writes (MM_BASE + ADDR_A_ADDR_OFFSET)
                      (MM_BASE + ADDR_A_DATA_OFFSET) matrix_A) [0, 1, 2, 3]) @
       concat (map (B_row_writes (MM_BASE + ADDR_B_ADDR_OFFSET)
                      (MM_BASE + ADDR_B_DATA_OFFSET) matrix_B) [0, 1, 2, 3])"
    and ad: "\<forall>e \<in> set pre. ev_addr e \<noteq> Some (MM_BASE + ADDR_CONTROL_OFFSET)"
    using main_start_events [of MM_BASE D w] by blast
  have "new_events w (main_start MM_BASE D w) =
            pre @ [Write32 (MM_BASE + ADDR_CONTROL_OFFSET) 0x3,
                   Printf ''Waiting for multiplication to finish...\<newline>'' []]"
    by (rule new_events_append [OF pre])
  moreover have "accesses_at (MM_BASE + ADDR_CONTROL_OFFSET) pre = []"
    using ad by (simp add: accesses_at_def filter_empty_conv)
  moreover have "\<forall>r w'. main MM_BASE D w = Some (r, w') \<longrightarrow>
            (\<exists>post. new_events w w' = new_events w (main_start MM_BASE D w) @ post) \<and>
            accesses_at (MM_BASE + ADDR_CONTROL_OFFSET) (new_events w w') =
              [Write32 (MM_BASE + ADDR_CONTROL_OFFSET) 0x3]"
    using main_control_accesses [of MM_BASE D w] by blast
  ultimately show ?thesis
    using wr by blast
qed

theorem main_trigger_write_witness:
  "\<exists>w'. main 0 test_device (test_world 1) = Some (0, w') \<and>
        accesses_at (0 + ADDR_CONTROL_OFFSET) (new_events (test_world 1) w') =
          [Write32 (0 + ADDR_CONTROL_OFFSET) 0x3]"
  using test_run_returns main_trigger_write [of "test_world 1" 0 test_device]
  by blast

text \<open>
  Claim C6 as stated has the control register written by a 64-bit access. On the test
  device the only access to the control register in the whole run is a 32-bit write.
\<close>

theorem main_trigger_write_64_bit_counterexample:
  "map_option (accesses_at 0 \<circ> trace \<circ> snd) (main 0 test_device (test_world 1)) =
     Some [Write32 0 0x3] \<and>
   map_option (accesses_at 0 \<circ> trace \<circ> snd) (main 0 test_device (test_world 1)) \<noteq>
     Some [Write64 0 0x3]"
proof -
  obtain w' where run: "main 0 test_device (test_world 1) = Some (0, w')"
    using test_run_returns by blast
  from main_control_accesses [OF this]
  have "accesses_at 0 (new_events (test_world 1) w') = [Write32 0 0x3]"
    by (simp add: ADDR_CONTROL_OFFSET_def)
  then have "accesses_at 0 (trace w') = [Write32 0 0x3]"
    by (simp add: new_events_def test_world_def)
  then show ?thesis
    unfolding run by simp
qed

text \<open>
  Claim C7. When \<open>main\<close> returns, what it did after the polling loop is the read-out of
  the specification over the linear indices 0, 1, ..., 15 in this order (row-major: row
  0..3 outer, column 0..3 inner), between two lines of console output before and one
  after. Its register accesses are, for each index, one 32-bit write of the index to the
  C-address register followed by one 32-bit read of the C-data register: sixteen reads,
  each answered by the device in the state that the write before it left.
\<close>

theorem main_reads_results_row_major:
  assumes "main MM_BASE D w = Some (r, w')"
  shows "\<exists>s wp vals.
           main_poll D (MM_BASE + ADDR_STATUS_OFFSET) (main_start MM_BASE D w) = Some (s, wp) \<and>
           new_events wp w' =
             [Printf ''Multiplication finished!\<newline>'' [],
              Printf ''\<newline>Reading results from C matrix BRAM...\<newline>'' []] @
             fst (result_sweep D (MM_BASE + ADDR_C_ADDR_OFFSET) (MM_BASE + ADDR_C_DATA_OFFSET)
                    [0..<16] (dev wp)) @
             [Printf ''\<newline>Nios II application finished.\<newline>'' []] \<and>
           dev w' = snd (result_sweep D (MM_BASE + ADDR_C_ADDR_OFFSET) (MM_BASE + ADDR_C_DATA_OFFSET)
                           [0..<16] (dev wp)) \<and>
           length vals = 16 \<and>
           filter is_access (new_events wp w') =
             concat (map (\<lambda>(i, v). [Write32 (MM_BASE + ADDR_C_ADDR_OFFSET) (of_nat i),
                                     Read32 (MM_BASE + ADDR_C_DATA_OFFSET) v])
                       (zip [0..<16] vals))"
proof -
  define ca where "ca = MM_BASE + ADDR_C_ADDR_OFFSET"
  define cd where "cd = MM_BASE + ADDR_C_DATA_OFFSET"
  obtain s wp where poll:
    "main_poll D (MM_BASE + ADDR_STATUS_OFFSET) (main_start MM_BASE D w) = Some (s, wp)"
    and fin: "main_finish MM_BASE D wp = (r, w')"
    using main_phases [OF assms] by blast
  define sw where "sw = fst (result_sweep D ca cd [0..<16] (dev wp))"
  have tr: "trace w' = trace wp @
            ([Printf ''Multiplication finished!\<newline>'' [],
             Printf ''\<newline>Reading results from C matrix BRAM...\<newline>'' []] @ sw @
            [Printf ''\<newline>Nios II application finished.\<newline>'' []])"
    and dv: "dev w' = snd (result_sweep D ca cd [0..<16] (dev wp))"
    using fin unfolding main_finish_sweep sw_def ca_def cd_def by auto
  obtain vals where len: "length vals = length [0..<16]"
    and regs: "filter is_access sw =
       concat (map (\<lambda>(i, v). [Write32 ca (of_nat i), Read32 cd v]) (zip [0..<16] vals))"
    using result_sweep_registers [of "[0..<16]" D ca cd "dev wp"] unfolding sw_def by blast
  have ne: "new_events wp w' =
            [Printf ''Multiplication finished!\<newline>'' [],
             Printf ''\<newline>Reading results from C matrix BRAM...\<newline>'' []] @ sw @
            [Printf ''\<newline>Nios II application finished.\<newline>'' []]"
    by (rule new_events_append [OF tr])
  have "filter is_access (new_events wp w') =
       concat (map (\<lambda>(i, v). [Write32 ca (of_nat i), Read32 cd v]) (zip [0..<16] vals))"
    unfolding ne by (simp add: regs del: upt_Suc)
  moreover have "length vals = 16"
    using len by simp
  ultimately show ?thesis
    using poll ne dv unfolding sw_def ca_def cd_def by blast
qed

theorem main_reads_results_row_major_witness:
  "\<exists>w' s wp vals.
     main 0 test_device (test_world 1) = Some (0, w') \<and>
     main_poll test_device (0 + ADDR_STATUS_OFFSET) (main_start 0 test_device (test_world 1))
       = Some (s, wp) \<and>
     length vals = 16 \<and>
     filter is_access (new_events wp w') =
       concat (map (\<lambda>(i, v). [Write32 (0 + ADDR_C_ADDR_OFFSET) (of_nat i),
                               Read32 (0 + ADDR_C_DATA_OFFSET) v])
                 (zip [0..<16] vals))"
proof -
  obtain w' where run: "main 0 test_device (test_world 1) = Some (0, w')"
    using test_run_returns by blast
  from main_reads_results_row_major [OF this] run show ?thesis
    by blast
qed
text \<open>
  Claim C8. The polling loop of \<open>main\<close> only reads the status register. It does not
  return while every read so far has bit 0 clear, however many there were: where the
  device never sets bit 0 it runs forever (\<open>None\<close>). It returns at the first read with
  bit 0 set, with that value; its events are then exactly these reads, one after the
  other, with nothing in between. \<open>main\<close> goes past the loop exactly when the loop
  returns.
\<close>

theorem main_poll_exits_on_done_bit:
  "(main_poll D p w = None \<longleftrightarrow> (\<forall>n. poll_status D p (dev w) n AND 1 = 0)) \<and>
   (\<forall>s wp. main_poll D p w = Some (s, wp) \<longrightarrow>
      (\<exists>k. (\<forall>i<k. poll_status D p (dev w) i AND 1 = 0) \<and>
           poll_status D p (dev w) k AND 1 \<noteq> 0 \<and>
           s = poll_status D p (dev w) k \<and>
           dev wp = poll_dev D p (dev w) (Suc k) \<and>
           new_events w wp = map (\<lambda>i. Read32 p (poll_status D p (dev w) i)) [0..<Suc k])) \<and>
   (main MM_BASE D w0 = None \<longleftrightarrow>
      main_poll D (MM_BASE + ADDR_STATUS_OFFSET) (main_start MM_BASE D w0) = None)"
proof (intro conjI allI impI)
  show "main_poll D p w = None \<longleftrightarrow> (\<forall>n. poll_status D p (dev w) n AND 1 = 0)"
    by (rule main_poll_None_iff)
next
  fix s wp
  assume "main_poll D p w = Some (s, wp)"
  from main_poll_Some [OF this]
  show "\<exists>k. (\<forall>i<k. poll_status D p (dev w) i AND 1 = 0) \<and>
           poll_status D p (dev w) k AND 1 \<noteq> 0 \<and>
           s = poll_status D p (dev w) k \<and>
           dev wp = poll_dev D p (dev w) (Suc k) \<and>
           new_events w wp = map (\<lambda>i. Read32 p (poll_status D p (dev w) i)) [0..<Suc k]"
    by (auto simp: new_events_def simp del: upt_Suc)
next
  show "main MM_BASE D w0 = None \<longleftrightarrow>
      main_poll D (MM_BASE + ADDR_STATUS_OFFSET) (main_start MM_BASE D w0) = None"
    by (simp add: main_def Let_def split: option.splits)
qed

theorem main_poll_exits_on_done_bit_witness:
  "main_poll test_device 8 (test_world 2) =
     Some (1, \<lparr>dev = 0, trace = [Read32 8 0, Read32 8 0, Read32 8 1]\<rparr>) \<and>
   (\<exists>k. (\<forall>i<k. poll_status test_device 8 (dev (test_world 2)) i AND 1 = 0) \<and>
        poll_status test_device 8 (dev (test_world 2)) k AND 1 \<noteq> 0 \<and>
        1 = poll_status test_device 8 (dev (test_world 2)) k \<and>
        new_events (test_world 2) \<lparr>dev = 0, trace = [Read32 8 0, Read32 8 0, Read32 8 1]\<rparr> =
          map (\<lambda>i. Read32 8 (poll_status test_device 8 (dev (test_world 2)) i)) [0..<Suc k])"
proof -
  from main_poll_exits_on_done_bit [of test_device 8 "test_world 2"]
  have "\<forall>s wp. main_poll test_device 8 (test_world 2) = Some (s, wp) \<longrightarrow>
      (\<exists>k. (\<forall>i<k. poll_status test_device 8 (dev (test_world 2)) i AND 1 = 0) \<and>
           poll_status test_device 8 (dev (test_world 2)) k AND 1 \<noteq> 0 \<and>
           s = poll_status test_device 8 (dev (test_world 2)) k \<and>
           dev wp = poll_dev test_device 8 (dev (test_world 2)) (Suc k) \<and>
           new_events (test_world 2) wp =
             map (\<lambda>i. Read32 8 (poll_status test_device 8 (dev (test_world 2)) i)) [0..<Suc k])"
    by blast
  with test_poll_run show ?thesis
    by blast
qed

end
